theory Spec2Isabelle
  imports Complex_Main
begin

section \<open>Python strings and the built-ins the scoring code calls\<close>

text \<open>
  A Python \<open>str\<close> is modelled as a \<open>string\<close> whose characters are read as the code
  points U+0000 to U+00FF. On that range \<open>str.lower\<close> works character by character:
  the upper-case letters are A to Z, U+00C0 to U+00D6 and U+00D8 to U+00DE, and the
  lower-case partner of each is 32 code points higher, which is the same code with bit 5
  set.
\<close>

definition isupper :: "char \<Rightarrow> bool" where
  "isupper c =
     (let n = (of_char c :: nat)
      in (65 \<le> n \<and> n \<le> 90) \<or> (192 \<le> n \<and> n \<le> 214) \<or> (216 \<le> n \<and> n \<le> 222))"

fun set_bit5 :: "char \<Rightarrow> char" where
  "set_bit5 (Char b0 b1 b2 b3 b4 b5 b6 b7) = Char b0 b1 b2 b3 b4 True b6 b7"

definition char_lower :: "char \<Rightarrow> char" where
  "char_lower c = (if isupper c then set_bit5 c else c)"

definition lower :: "string \<Rightarrow> string" where
  "lower s = map char_lower s"

text \<open>
  \<open>str.strip()\<close> removes the characters for which \<open>str.isspace\<close> holds from both ends:
  tab to carriage return, the four separators U+001C to U+001F, the space, U+0085 and
  U+00A0.
\<close>

definition isspace :: "char \<Rightarrow> bool" where
  "isspace c =
     (let n = (of_char c :: nat)
      in (9 \<le> n \<and> n \<le> 13) \<or> (28 \<le> n \<and> n \<le> 32) \<or> n = 133 \<or> n = 160)"

definition lstrip :: "string \<Rightarrow> string" where
  "lstrip s = dropWhile isspace s"

definition rstrip :: "string \<Rightarrow> string" where
  "rstrip s = rev (dropWhile isspace (rev s))"

definition strip :: "string \<Rightarrow> string" where
  "strip s = rstrip (lstrip s)"

text \<open>
  \<open>int(s)\<close> for a \<open>str\<close> in base 10. CPython skips white space at both ends (here the
  separators U+001C to U+001F do not count as white space), reads one optional sign, then
  decimal digits in which two digits may be separated by a single underscore, and raises
  \<open>ValueError\<close> for anything else, and also when there are more digits than the
  interpreter's limit for conversions (4300 unless reconfigured). \<open>None\<close> stands for
  the \<open>ValueError\<close>.
\<close>

definition int_isspace :: "char \<Rightarrow> bool" where
  "int_isspace c =
     (let n = (of_char c :: nat)
      in (9 \<le> n \<and> n \<le> 13) \<or> n = 32 \<or> n = 133 \<or> n = 160)"

definition isdigit :: "char \<Rightarrow> bool" where
  "isdigit c = (let n = (of_char c :: nat) in 48 \<le> n \<and> n \<le> 57)"

definition digit_value :: "char \<Rightarrow> int" where
  "digit_value c = int (of_char c) - 48"

definition int_max_str_digits :: nat where
  "int_max_str_digits = 4300"

text \<open>
  The scan over the digits: \<open>scan_digits cs k v\<close> has read \<open>k\<close> digits of value \<open>v\<close>
  and the last character read was a digit.
\<close>

fun scan_digits :: "string \<Rightarrow> nat \<Rightarrow> int \<Rightarrow> (nat \<times> int) option" where
  "scan_digits [] k v = Some (k, v)"
| "scan_digits [c] k v =
     (if isdigit c then Some (Suc k, 10 * v + digit_value c) else None)"
| "scan_digits (c # d # cs) k v =
     (if isdigit c then scan_digits (d # cs) (Suc k) (10 * v + digit_value c)
      else if c = CHR ''_'' \<and> isdigit d then scan_digits cs (Suc k) (10 * v + digit_value d)
      else None)"

definition parse_digits :: "string \<Rightarrow> int option" where
  "parse_digits cs =
     (case cs of
        [] \<Rightarrow> None
      | c # _ \<Rightarrow>
          if isdigit c then
            (case scan_digits cs 0 0 of
               None \<Rightarrow> None
             | Some (k, v) \<Rightarrow> if k > int_max_str_digits then None else Some v)
          else None)"

definition py_int :: "string \<Rightarrow> int option" where
  "py_int s =
     (let t = rev (dropWhile int_isspace (rev (dropWhile int_isspace s)))
      in case t of
           [] \<Rightarrow> None
         | c # cs \<Rightarrow>
             if c = CHR ''+'' then parse_digits cs
             else if c = CHR ''-'' then map_option uminus (parse_digits cs)
             else parse_digits t)"

text \<open>
  The decimal numeral of a natural number, as \<open>str(n)\<close> writes it and as a user types
  the number of an option.
\<close>

fun decimal :: "nat \<Rightarrow> string" where
  "decimal n = (if n < 10 then [char_of (48 + n)] else decimal (n div 10) @ [char_of (48 + n mod 10)])"

declare decimal.simps [simp del]

section \<open>Question\<close>

text \<open>
  The class \<open>Question\<close> of \<open>test_app.py\<close>. Its attributes \<open>id\<close> and \<open>type\<close> are the
  fields \<open>qid\<close> and \<open>qtype\<close>; the point value is a Python integer.
\<close>

record Question =
  qid :: string
  question :: string
  qtype :: string
  options :: "string list"
  correct_answer :: string
  explanation :: string
  points :: int
  category :: string

text \<open>
  \<open>Question.check_answer\<close>. In the multiple-choice branch an index out of range leaves
  the \<open>try\<close> block without a \<open>return\<close> and falls through to the final
  \<open>return False, 0\<close>; a \<open>ValueError\<close> of \<open>int\<close> is caught and gives the same pair.
\<close>

definition true_words :: "string list" where
  "true_words = [''true'', ''t'', ''1'', ''yes'', ''y'']"

definition check_answer :: "Question \<Rightarrow> string \<Rightarrow> bool \<times> int" where
  "check_answer q user_answer =
     (if qtype q = ''multiple_choice'' then
        (case py_int user_answer of
           None \<Rightarrow> (False, 0)
         | Some n \<Rightarrow>
             (let choice_index = n - 1
              in if 0 \<le> choice_index \<and> choice_index < int (length (options q)) then
                   (let selected = options q ! nat choice_index
                    in (selected = correct_answer q,
                        if selected = correct_answer q then points q else 0))
                 else (False, 0)))
      else if qtype q = ''true_false'' then
        (let answer_bool = (strip (lower user_answer) \<in> set true_words);
             correct_bool = (strip (lower (correct_answer q)) \<in> set true_words)
         in (answer_bool = correct_bool, if answer_bool = correct_bool then points q else 0))
      else if qtype q \<in> set [''fill_blank'', ''short_answer''] then
        (let user_clean = strip (lower user_answer);
             correct_clean = strip (lower (correct_answer q))
         in (user_clean = correct_clean, if user_clean = correct_clean then points q else 0))
      else (False, 0))"

section \<open>TestSession\<close>

text \<open>
  The exceptions a session operation can end with. \<open>IndexError\<close> and \<open>TypeError\<close> are
  the ones the Python code raises; \<open>OutOfSequence\<close> and \<open>AlreadyFinished\<close> are the
  session errors the specification names, which no statement of the code raises.
\<close>

datatype error = IndexError | TypeError | OutOfSequence | AlreadyFinished

text \<open>
  The dictionary \<open>submit_answer\<close> appends to \<open>self.results\<close>. Its keys \<open>question\<close>,
  \<open>correct_answer\<close> and \<open>explanation\<close> carry the prefix \<open>r_\<close> here, since the question
  has fields of the same names.
\<close>

record result =
  question_id :: string
  r_question :: string
  user_answer :: string
  r_correct_answer :: string
  is_correct :: bool
  points_earned :: int
  max_points :: int
  r_explanation :: string

text \<open>
  The object state of \<open>TestSession\<close>. A \<open>datetime\<close> is an integer count of microseconds,
  \<open>None\<close> is \<open>None\<close>.
\<close>

record session =
  questions :: "Question list"
  results :: "result list"
  start_time :: "int option"
  end_time :: "int option"
  current_question_index :: int

text \<open>
  The dictionary \<open>finish_test\<close> returns; its keys \<open>max_points\<close> and \<open>results\<close> are the
  fields \<open>s_max_points\<close> and \<open>s_results\<close>. The duration is the difference of the two
  time stamps. The percentage is the exact rational value of \<open>total / max * 100\<close>. Python
  evaluates that expression in binary floating point, with one rounding in the division
  and one in the multiplication, so the number it returns can differ from the exact value
  in the last places, is 0.0 when the quotient is too small for a float, and the division
  raises \<open>OverflowError\<close> when the quotient is too large for one (which needs point values
  of several hundred digits with different signs). None of this rounding is part of the
  model: only facts that hold of the exact value and of the float alike are stated of
  this field, namely that it is the integer 0 when the maximum is not positive, and that
  it lies between 0 and 100 when the total lies between 0 and the maximum.
\<close>

record summary =
  total_points :: int
  s_max_points :: int
  percentage :: rat
  duration :: int
  s_results :: "result list"

definition TestSession_init :: "Question list \<Rightarrow> session" where
  "TestSession_init qs =
     \<lparr>questions = qs, results = [], start_time = None, end_time = None,
      current_question_index = 0\<rparr>"

text \<open>
  Every operation returns what the call produced (\<open>Inl\<close> an exception) together with the
  state of the object after the call. \<open>datetime.now()\<close> is the argument \<open>now\<close>; the
  \<open>print\<close> calls have no effect on the state and are left out.
\<close>

definition start_test :: "int \<Rightarrow> session \<Rightarrow> session" where
  "start_test now s = s\<lparr>start_time := Some now\<rparr>"

text \<open>
  \<open>self.questions[self.current_question_index]\<close>: a negative index counts from the end
  of the list, and an index outside the list raises \<open>IndexError\<close>.
\<close>

definition get_current_question :: "session \<Rightarrow> error + Question" where
  "get_current_question s =
     (let n = int (length (questions s)); i = current_question_index s
      in if 0 \<le> i \<and> i < n then Inr (questions s ! nat i)
         else if - n \<le> i \<and> i < 0 then Inr (questions s ! nat (n + i))
         else Inl IndexError)"

definition submit_answer :: "string \<Rightarrow> session \<Rightarrow> (error + bool) \<times> session" where
  "submit_answer answer s =
     (case get_current_question s of
        Inl e \<Rightarrow> (Inl e, s)
      | Inr q \<Rightarrow>
          (let (correct, pts) = check_answer q answer;
               r = \<lparr>question_id = qid q, r_question = question q, user_answer = answer,
                    r_correct_answer = correct_answer q, is_correct = correct,
                    points_earned = pts, max_points = points q,
                    r_explanation = explanation q\<rparr>;
               s1 = s\<lparr>results := results s @ [r]\<rparr>;
               s2 = s1\<lparr>current_question_index := current_question_index s1 + 1\<rparr>
           in (Inr (current_question_index s2 < int (length (questions s2))), s2)))"

text \<open>
  \<open>finish_test\<close> first stores the end time, then sums over \<open>self.results\<close>. The
  difference \<open>self.end_time - self.start_time\<close> raises \<open>TypeError\<close> when the session was
  never started; the end time has been stored by then.
\<close>

definition finish_test :: "int \<Rightarrow> session \<Rightarrow> (error + summary) \<times> session" where
  "finish_test now s =
     (let s1 = s\<lparr>end_time := Some now\<rparr>;
          total = sum_list (map points_earned (results s1));
          maxp = sum_list (map max_points (results s1));
          pct = (if maxp > 0 then rat_of_int total / rat_of_int maxp * 100 else 0)
      in case start_time s1 of
           None \<Rightarrow> (Inl TypeError, s1)
         | Some t0 \<Rightarrow>
             (Inr \<lparr>total_points = total, s_max_points = maxp, percentage = pct,
                   duration = now - t0, s_results = results s1\<rparr>, s1))"

text \<open>
  A caller's use of a session: any sequence of the three operations, where the caller
  goes on after an exception with the object as the exception left it.
\<close>

datatype call = Start int | Submit string | Finish int

fun exec :: "call \<Rightarrow> session \<Rightarrow> session" where
  "exec (Start now) s = start_test now s"
| "exec (Submit a) s = snd (submit_answer a s)"
| "exec (Finish now) s = snd (finish_test now s)"

definition run :: "call list \<Rightarrow> session \<Rightarrow> session" where
  "run cs s = fold exec cs s"

text \<open>
  Submitting a list of answers one after the other, as \<open>demo.py\<close> does; the first
  exception ends it.
\<close>

fun submit_answers :: "string list \<Rightarrow> session \<Rightarrow> (error + bool list) \<times> session" where
  "submit_answers [] s = (Inr [], s)"
| "submit_answers (a # as) s =
     (case submit_answer a s of
        (Inl e, s') \<Rightarrow> (Inl e, s')
      | (Inr b, s') \<Rightarrow>
          (case submit_answers as s' of
             (Inl e, s'') \<Rightarrow> (Inl e, s'')
           | (Inr bs, s'') \<Rightarrow> (Inr (b # bs), s'')))"

section \<open>The specification's wording of the text comparisons\<close>

text \<open>
  These three predicates follow the words of the specification, not the code.
  \<open>surrounded s m\<close>: the string \<open>s\<close> is \<open>m\<close> with white space added at its two ends.
  \<open>spec_true_word\<close>: trimmed and without regard to case, the string is one of the five
  words for true. \<open>spec_same_text\<close>: the two strings are equal up to case and surrounding
  white space.
\<close>

definition surrounded :: "string \<Rightarrow> string \<Rightarrow> bool" where
  "surrounded s m = (\<exists>l r. s = l @ m @ r \<and> (\<forall>c\<in>set l. isspace c) \<and> (\<forall>c\<in>set r. isspace c))"

definition spec_true_word :: "string \<Rightarrow> bool" where
  "spec_true_word s = (\<exists>m. surrounded s m \<and> lower m \<in> set true_words)"

definition spec_same_text :: "string \<Rightarrow> string \<Rightarrow> bool" where
  "spec_same_text a b = (\<exists>m n. surrounded a m \<and> surrounded b n \<and> lower m = lower n)"

section \<open>Example questions\<close>

text \<open>
  The two questions of \<open>demo.py\<close> (the second has no \<open>options\<close> key, so the constructor
  stores the empty list), a fill-in question whose answer is \<open>skin\<close>, and a question of
  a type the scoring code does not know.
\<close>

definition demo1 :: Question where
  "demo1 = \<lparr>qid = ''demo1'', question = ''What is 2 + 2?'', qtype = ''multiple_choice'',
     options = [''3'', ''4'', ''5'', ''6''], correct_answer = ''4'',
     explanation = ''Basic arithmetic: 2 + 2 = 4'', points = 1, category = ''Math''\<rparr>"

definition demo2 :: Question where
  "demo2 = \<lparr>qid = ''demo2'', question = ''Python is easy to learn.'', qtype = ''true_false'',
     options = [], correct_answer = ''True'',
     explanation = ''Python is known for its simple and readable syntax.'', points = 1,
     category = ''Programming''\<rparr>"

definition skin_question :: Question where
  "skin_question = \<lparr>qid = ''bio1'', question = ''The largest organ of the human body is the ____.'',
     qtype = ''fill_blank'', options = [], correct_answer = ''skin'', explanation = '''',
     points = 2, category = ''Biology''\<rparr>"

definition essay_question :: Question where
  "essay_question = \<lparr>qid = ''e1'', question = ''Discuss.'', qtype = ''essay'', options = [],
     correct_answer = ''anything'', explanation = '''', points = 5, category = ''General''\<rparr>"

section \<open>The invariant of a session\<close>

text \<open>
  What every operation on a session keeps true: the question list is the one the session
  was created with, the index counts the recorded results, which are never more than the
  questions, result number \<open>i\<close> carries the point value of question number \<open>i\<close>, and
  the points earned are all of them or none.
\<close>

definition session_inv :: "Question list \<Rightarrow> session \<Rightarrow> bool" where
  "session_inv qs s =
     (questions s = qs \<and>
      current_question_index s = int (length (results s)) \<and>
      length (results s) \<le> length qs \<and>
      map max_points (results s) = map points (take (length (results s)) qs) \<and>
      (\<forall>r\<in>set (results s). points_earned r = 0 \<or> points_earned r = max_points r))"

section \<open>Facts about the string functions\<close>

lemmas py_int_eval = py_int_def parse_digits_def int_isspace_def isdigit_def digit_value_def
  int_max_str_digits_def

lemmas strip_lower_eval = strip_def lstrip_def rstrip_def lower_def char_lower_def isupper_def
  isspace_def true_words_def

lemma isupper_set_bit5:
  assumes "isupper c"
  shows "(of_char (set_bit5 c) :: nat) = of_char c + 32"
proof -
  obtain b0 b1 b2 b3 b4 b5 b6 b7 where c: "c = Char b0 b1 b2 b3 b4 b5 b6 b7" by (cases c)
  have "\<not> b5" using assms unfolding c isupper_def Let_def
    by (cases b5; cases b6; cases b7) (auto simp: of_bool_def split: if_splits)
  then show ?thesis unfolding c by simp
qed

lemma isspace_char_lower: "isspace (char_lower c) = isspace c"
proof (cases "isupper c")
  case False then show ?thesis by (simp add: char_lower_def)
next
  case True
  then have "(of_char (set_bit5 c) :: nat) = of_char c + 32" by (rule isupper_set_bit5)
  with True show ?thesis unfolding char_lower_def isupper_def isspace_def Let_def
    by auto
qed

lemma dropWhile_isspace_lower: "dropWhile isspace (lower s) = lower (dropWhile isspace s)"
  by (induction s) (simp_all add: lower_def isspace_char_lower)

lemma lower_rev: "lower (rev s) = rev (lower s)"
  by (simp add: lower_def rev_map)

lemma strip_lower: "strip (lower s) = lower (strip s)"
  by (simp add: strip_def lstrip_def rstrip_def dropWhile_isspace_lower lower_rev [symmetric])

lemma lstrip_spaces: "\<forall>c\<in>set l. isspace c \<Longrightarrow> lstrip (l @ s) = lstrip s"
  by (simp add: lstrip_def dropWhile_append2)

lemma rstrip_spaces: "\<forall>c\<in>set r. isspace c \<Longrightarrow> rstrip (s @ r) = rstrip s"
  using dropWhile_append2 [of "rev r" isspace "rev s"] by (simp add: rstrip_def)

lemma rstrip_lstrip_append:
  assumes "\<forall>c\<in>set r. isspace c"
  shows "rstrip (lstrip (m @ r)) = rstrip (lstrip m)"
proof (cases "\<forall>c\<in>set m. isspace c")
  case True
  then have "lstrip (m @ r) = lstrip r" "lstrip m = []"
    by (simp_all add: lstrip_def dropWhile_append2)
  moreover have "lstrip r = []" using assms by (simp add: lstrip_def)
  ultimately show ?thesis by simp
next
  case False
  then obtain x where "x \<in> set m" "\<not> isspace x" by blast
  then have "lstrip (m @ r) = lstrip m @ r"
    by (simp add: lstrip_def dropWhile_append1)
  then show ?thesis using assms by (simp add: rstrip_spaces)
qed

lemma surrounded_strip_eq: "surrounded s m \<Longrightarrow> strip s = strip m"
  unfolding surrounded_def strip_def
  by (auto simp: lstrip_spaces rstrip_lstrip_append)

lemma surrounded_strip: "surrounded s (strip s)"
proof -
  let ?l = "takeWhile isspace s"
  let ?t = "dropWhile isspace s"
  let ?r = "rev (takeWhile isspace (rev ?t))"
  have 1: "s = ?l @ ?t" by simp
  have "rev (takeWhile isspace (rev ?t) @ dropWhile isspace (rev ?t)) = ?t"
    by (simp only: takeWhile_dropWhile_id rev_rev_ident)
  then have "rev (dropWhile isspace (rev ?t)) @ ?r = ?t"
    by (simp only: rev_append)
  then have 2: "?t = strip s @ ?r" by (simp only: strip_def lstrip_def rstrip_def)
  have 3: "\<forall>c\<in>set ?l. isspace c" by (auto dest: set_takeWhileD)
  have 4: "\<forall>c\<in>set ?r. isspace c" by (auto dest: set_takeWhileD)
  from 1 2 have "s = ?l @ strip s @ ?r" by simp
  with 3 4 show ?thesis unfolding surrounded_def by blast
qed

lemma strip_true_words: "w \<in> set true_words \<Longrightarrow> strip w = w"
  by (auto simp: true_words_def strip_def lstrip_def rstrip_def isspace_def)

lemma true_word_iff: "strip (lower s) \<in> set true_words \<longleftrightarrow> spec_true_word s"
proof
  assume "strip (lower s) \<in> set true_words"
  then have "lower (strip s) \<in> set true_words" by (simp add: strip_lower)
  with surrounded_strip show "spec_true_word s" unfolding spec_true_word_def by blast
next
  assume "spec_true_word s"
  then obtain m where m: "surrounded s m" "lower m \<in> set true_words"
    unfolding spec_true_word_def by blast
  have "strip (lower s) = lower (strip m)" using m(1) by (simp add: strip_lower surrounded_strip_eq)
  also have "\<dots> = strip (lower m)" by (simp add: strip_lower)
  also have "\<dots> = lower m" using m(2) by (rule strip_true_words)
  finally show "strip (lower s) \<in> set true_words" using m(2) by simp
qed

lemma same_text_iff: "strip (lower a) = strip (lower b) \<longleftrightarrow> spec_same_text a b"
proof
  assume "strip (lower a) = strip (lower b)"
  then have "lower (strip a) = lower (strip b)" by (simp add: strip_lower)
  then show "spec_same_text a b" unfolding spec_same_text_def
    using surrounded_strip by blast
next
  assume "spec_same_text a b"
  then obtain m n where mn: "surrounded a m" "surrounded b n" "lower m = lower n"
    unfolding spec_same_text_def by blast
  have "strip (lower a) = lower (strip m)" using mn(1) by (simp add: strip_lower surrounded_strip_eq)
  also have "\<dots> = strip (lower n)" using mn(3) by (simp add: strip_lower [symmetric])
  also have "\<dots> = strip (lower b)" using mn(2) by (simp add: strip_lower surrounded_strip_eq)
  finally show "strip (lower a) = strip (lower b)" .
qed

text \<open>
  \<open>int\<close> reads a decimal numeral back as the number it denotes, so the numeral of
  \<open>i + 1\<close> selects option \<open>i\<close> of a multiple-choice question.
\<close>

lemma isdigit_char_of: "d < 10 \<Longrightarrow> isdigit (char_of (48 + d :: nat))"
  by (simp add: isdigit_def)

lemma digit_value_char_of: "d < 10 \<Longrightarrow> digit_value (char_of (48 + d :: nat)) = int d"
  by (simp add: digit_value_def)

lemma decimal_digits: "\<forall>c\<in>set (decimal n). isdigit c"
  by (induction n rule: decimal.induct) (subst decimal.simps, simp add: isdigit_char_of)

lemma decimal_nonempty: "decimal n \<noteq> []"
  by (subst decimal.simps) simp

lemma scan_digits_all:
  "\<forall>c\<in>set ds. isdigit c \<Longrightarrow>
   scan_digits ds k v = Some (k + length ds, foldl (\<lambda>a c. 10 * a + digit_value c) v ds)"
  by (induction ds k v rule: scan_digits.induct) simp_all

lemma foldl_decimal: "foldl (\<lambda>a c. 10 * a + digit_value c) 0 (decimal n) = int n"
proof (induction n rule: decimal.induct)
  case (1 n)
  show ?case
  proof (cases "n < 10")
    case True
    then show ?thesis by (subst decimal.simps) (simp add: digit_value_char_of)
  next
    case False
    with 1 have "foldl (\<lambda>a c. 10 * a + digit_value c) 0 (decimal (n div 10)) = int (n div 10)"
      by simp
    with False show ?thesis
      by (subst decimal.simps) (simp add: digit_value_char_of zdiv_int zmod_int)
  qed
qed

lemma isdigit_not_space: "isdigit c \<Longrightarrow> \<not> int_isspace c"
  by (auto simp: isdigit_def int_isspace_def Let_def)

lemma isdigit_not_sign: "isdigit c \<Longrightarrow> c \<noteq> CHR ''+'' \<and> c \<noteq> CHR ''-''"
  by (auto simp: isdigit_def)

lemma dropWhile_digits:
  assumes "ds \<noteq> []" "\<forall>c\<in>set ds. isdigit c"
  shows "dropWhile int_isspace ds = ds"
  using assms by (cases ds) (simp_all add: isdigit_not_space)

lemma py_int_digits:
  assumes "ds \<noteq> []" "\<forall>c\<in>set ds. isdigit c" "length ds \<le> int_max_str_digits"
  shows "py_int ds = Some (foldl (\<lambda>a c. 10 * a + digit_value c) 0 ds)"
proof -
  have r: "rev ds \<noteq> []" "\<forall>c\<in>set (rev ds). isdigit c" using assms by simp_all
  have t: "rev (dropWhile int_isspace (rev (dropWhile int_isspace ds))) = ds"
    using dropWhile_digits [OF assms(1,2)] dropWhile_digits [OF r] by simp
  obtain c cs where ds: "ds = c # cs" using assms(1) by (cases ds) auto
  with assms(2) have c: "isdigit c" by simp
  have p: "parse_digits ds = Some (foldl (\<lambda>a c. 10 * a + digit_value c) 0 ds)"
    using assms(3) c scan_digits_all [OF assms(2), of 0 0]
    by (simp add: parse_digits_def ds)
  show ?thesis
    unfolding py_int_def t Let_def using p isdigit_not_sign [OF c] by (simp add: ds)
qed

lemma py_int_decimal:
  "length (decimal n) \<le> int_max_str_digits \<Longrightarrow> py_int (decimal n) = Some (int n)"
  using py_int_digits [OF decimal_nonempty decimal_digits, of n] by (simp add: foldl_decimal)

lemma check_answer_decimal_index:
  assumes "qtype q = ''multiple_choice''" "i < length (options q)"
    "length (decimal (Suc i)) \<le> int_max_str_digits"
  shows "check_answer q (decimal (Suc i)) =
           (if options q ! i = correct_answer q then (True, points q) else (False, 0))"
  using assms by (simp add: check_answer_def py_int_decimal Let_def)


section \<open>Scoring\<close>

text \<open>
  Claim C6. For a question of type \<open>multiple_choice\<close> the answer is read by \<open>int\<close> as a
  1-based index into the options: an answer that \<open>int\<close> rejects, or a number below 1 or
  above the number of options, scores \<open>(False, 0)\<close>; a number \<open>k\<close> in range scores
  \<open>(True, points)\<close> exactly when option \<open>k - 1\<close> is the correct-answer string, compared
  character by character, and \<open>(False, 0)\<close> otherwise.
\<close>

theorem check_answer_multiple_choice:
  assumes "qtype q = ''multiple_choice''"
  shows "(py_int a = None \<longrightarrow> check_answer q a = (False, 0)) \<and>
         (\<forall>k. py_int a = Some k \<and> (k < 1 \<or> int (length (options q)) < k) \<longrightarrow>
              check_answer q a = (False, 0)) \<and>
         (\<forall>k. py_int a = Some k \<and> 1 \<le> k \<and> k \<le> int (length (options q)) \<longrightarrow>
              check_answer q a =
                (if options q ! nat (k - 1) = correct_answer q then (True, points q)
                 else (False, 0)))"
  using assms by (auto simp: check_answer_def Let_def)

theorem check_answer_multiple_choice_witness:
  "qtype demo1 = ''multiple_choice'' \<and>
   py_int ''two'' = None \<and> check_answer demo1 ''two'' = (False, 0) \<and>
   py_int ''5'' = Some 5 \<and> int (length (options demo1)) < 5 \<and>
   check_answer demo1 ''5'' = (False, 0) \<and>
   py_int ''0'' = Some 0 \<and> check_answer demo1 ''0'' = (False, 0) \<and>
   py_int ''2'' = Some 2 \<and> 2 \<le> int (length (options demo1)) \<and>
   check_answer demo1 ''2'' = (True, 1) \<and>
   py_int ''1'' = Some 1 \<and> check_answer demo1 ''1'' = (False, 0)"
proof -
  have t: "qtype demo1 = ''multiple_choice''" by (simp add: demo1_def)
  have n: "length (options demo1) = 4" by (simp add: demo1_def)
  have p: "py_int ''two'' = None" "py_int ''5'' = Some 5" "py_int ''0'' = Some 0"
    "py_int ''2'' = Some 2" "py_int ''1'' = Some 1"
    by (simp_all add: py_int_eval)
  from check_answer_multiple_choice [OF t, of "''two''"] p(1)
  have 1: "check_answer demo1 ''two'' = (False, 0)" by simp
  from check_answer_multiple_choice [OF t, of "''5''"] p(2) n
  have 2: "check_answer demo1 ''5'' = (False, 0)" by simp
  from check_answer_multiple_choice [OF t, of "''0''"] p(3)
  have 3: "check_answer demo1 ''0'' = (False, 0)" by simp
  from check_answer_multiple_choice [OF t, of "''2''"] p(4) n
  have 4: "check_answer demo1 ''2'' = (True, 1)" by (simp add: demo1_def)
  from check_answer_multiple_choice [OF t, of "''1''"] p(5) n
  have 5: "check_answer demo1 ''1'' = (False, 0)" by (simp add: demo1_def)
  from t n p 1 2 3 4 5 show ?thesis by simp
qed

text \<open>
  Claim C7. For a question of type \<open>true_false\<close> the answer and the correct answer are
  both reduced to a truth value, true exactly for the strings that are one of \<open>true\<close>,
  \<open>t\<close>, \<open>1\<close>, \<open>yes\<close>, \<open>y\<close> once trimmed and lower-cased; the answer is correct exactly
  when the two truth values agree, and earns the question's points then and 0 otherwise.
\<close>

theorem check_answer_true_false:
  assumes "qtype q = ''true_false''"
  shows "check_answer q a =
           (spec_true_word a = spec_true_word (correct_answer q),
            if spec_true_word a = spec_true_word (correct_answer q) then points q else 0)"
  using assms by (simp add: check_answer_def Let_def true_word_iff)

theorem check_answer_true_false_witness:
  "qtype demo2 = ''true_false'' \<and>
   check_answer demo2 '' yEs '' = (True, 1) \<and>
   (spec_true_word '' yEs '' = spec_true_word (correct_answer demo2)) \<and>
   check_answer demo2 ''False'' = (False, 0) \<and>
   (spec_true_word ''False'' \<noteq> spec_true_word (correct_answer demo2))"
proof -
  have t: "qtype demo2 = ''true_false''" by (simp add: demo2_def)
  have 1: "check_answer demo2 '' yEs '' = (True, 1)"
    by (simp add: check_answer_def demo2_def strip_lower_eval)
  have 2: "check_answer demo2 ''False'' = (False, 0)"
    by (simp add: check_answer_def demo2_def strip_lower_eval)
  from check_answer_true_false [OF t, of "'' yEs ''"] 1
  have 3: "spec_true_word '' yEs '' = spec_true_word (correct_answer demo2)" by simp
  from check_answer_true_false [OF t, of "''False''"] 2
  have 4: "spec_true_word ''False'' \<noteq> spec_true_word (correct_answer demo2)" by simp
  from t 1 2 3 4 show ?thesis by simp
qed

text \<open>
  Claim C8. For a question of type \<open>fill_blank\<close> or \<open>short_answer\<close> the answer is correct
  exactly when it equals the correct answer up to case and surrounding white space; the
  answer \<open>Skin\<close> with two blanks before it and one after is correct for \<open>skin\<close>.
\<close>

theorem check_answer_text:
  assumes "qtype q = ''fill_blank'' \<or> qtype q = ''short_answer''"
  shows "check_answer q a =
           (spec_same_text a (correct_answer q),
            if spec_same_text a (correct_answer q) then points q else 0)"
  using assms by (auto simp: check_answer_def Let_def same_text_iff)

theorem check_answer_text_witness:
  "(qtype skin_question = ''fill_blank'' \<or> qtype skin_question = ''short_answer'') \<and>
   correct_answer skin_question = ''skin'' \<and>
   check_answer skin_question ''  Skin '' = (True, 2) \<and>
   spec_same_text ''  Skin '' ''skin'' \<and>
   check_answer skin_question ''s kin'' = (False, 0) \<and>
   \<not> spec_same_text ''s kin'' ''skin''"
proof -
  have t: "qtype skin_question = ''fill_blank'' \<or> qtype skin_question = ''short_answer''"
    by (simp add: skin_question_def)
  have c: "correct_answer skin_question = ''skin''" by (simp add: skin_question_def)
  have 1: "check_answer skin_question ''  Skin '' = (True, 2)"
    by (simp add: check_answer_def skin_question_def strip_lower_eval)
  have 2: "check_answer skin_question ''s kin'' = (False, 0)"
    by (simp add: check_answer_def skin_question_def strip_lower_eval)
  from check_answer_text [OF t, of "''  Skin ''"] 1 c
  have 3: "spec_same_text ''  Skin '' ''skin''" by simp
  from check_answer_text [OF t, of "''s kin''"] 2 c
  have 4: "\<not> spec_same_text ''s kin'' ''skin''" by simp
  from t c 1 2 3 4 show ?thesis by simp
qed

text \<open>
  Claim C9. A question whose type is none of the four known ones scores \<open>(False, 0)\<close> for
  every answer.
\<close>

theorem check_answer_unknown_type:
  assumes "qtype q \<notin> {''multiple_choice'', ''true_false'', ''fill_blank'', ''short_answer''}"
  shows "check_answer q a = (False, 0)"
  using assms by (simp add: check_answer_def)

theorem check_answer_unknown_type_witness:
  "qtype essay_question \<notin> {''multiple_choice'', ''true_false'', ''fill_blank'', ''short_answer''} \<and>
   check_answer essay_question ''anything'' = (False, 0)"
proof -
  have t: "qtype essay_question \<notin> {''multiple_choice'', ''true_false'', ''fill_blank'', ''short_answer''}"
    by (simp add: essay_question_def)
  from t check_answer_unknown_type [OF t, of "''anything''"] show ?thesis by simp
qed


section \<open>Facts about the session operations\<close>

lemma check_answer_points: "snd (check_answer q a) = 0 \<or> snd (check_answer q a) = points q"
  by (auto simp: check_answer_def Let_def split: option.splits)

lemma get_current_question_in_range:
  "0 \<le> current_question_index s \<Longrightarrow> current_question_index s < int (length (questions s)) \<Longrightarrow>
   get_current_question s = Inr (questions s ! nat (current_question_index s))"
  by (simp add: get_current_question_def Let_def)

lemma get_current_question_past_end:
  "int (length (questions s)) \<le> current_question_index s \<Longrightarrow> get_current_question s = Inl IndexError"
  by (simp add: get_current_question_def Let_def)

lemma submit_answer_Inr:
  assumes "get_current_question s = Inr q"
  shows "submit_answer a s =
     (Inr (current_question_index s + 1 < int (length (questions s))),
      s\<lparr>results := results s @
           [\<lparr>question_id = qid q, r_question = question q, user_answer = a,
             r_correct_answer = correct_answer q, is_correct = fst (check_answer q a),
             points_earned = snd (check_answer q a), max_points = points q,
             r_explanation = explanation q\<rparr>],
        current_question_index := current_question_index s + 1\<rparr>)"
  using assms by (simp add: submit_answer_def Let_def split: prod.splits)

lemma submit_answer_Inl:
  assumes "get_current_question s = Inl e"
  shows "submit_answer a s = (Inl e, s)"
  using assms by (simp add: submit_answer_def)

lemma session_inv_init: "session_inv qs (TestSession_init qs)"
  by (simp add: session_inv_def TestSession_init_def)

lemma session_inv_start: "session_inv qs s \<Longrightarrow> session_inv qs (start_test now s)"
  by (simp add: session_inv_def start_test_def)

lemma snd_finish_test: "snd (finish_test now s) = s\<lparr>end_time := Some now\<rparr>"
  by (simp add: finish_test_def Let_def split: option.splits)

lemma session_inv_finish: "session_inv qs s \<Longrightarrow> session_inv qs (snd (finish_test now s))"
  by (simp add: session_inv_def snd_finish_test)

lemma session_inv_submit:
  assumes "session_inv qs s"
  shows "session_inv qs (snd (submit_answer a s))"
proof (cases "length (results s) < length qs")
  case True
  let ?n = "length (results s)"
  from assms have q: "questions s = qs" and i: "current_question_index s = int ?n"
    and m: "map max_points (results s) = map points (take ?n qs)"
    and p: "\<forall>r\<in>set (results s). points_earned r = 0 \<or> points_earned r = max_points r"
    by (simp_all add: session_inv_def)
  have g: "get_current_question s = Inr (qs ! ?n)"
    using get_current_question_in_range [of s] True q i by simp
  have t: "take (Suc ?n) qs = take ?n qs @ [qs ! ?n]"
    using True by (rule take_Suc_conv_app_nth)
  show ?thesis
    unfolding submit_answer_Inr [OF g] session_inv_def
    using True q i m p t check_answer_points [of "qs ! ?n" a] by auto
next
  case False
  with assms have "int (length (questions s)) \<le> current_question_index s"
    by (simp add: session_inv_def)
  then have "submit_answer a s = (Inl IndexError, s)"
    by (simp add: get_current_question_past_end submit_answer_Inl)
  with assms show ?thesis by simp
qed

lemma session_inv_exec: "session_inv qs s \<Longrightarrow> session_inv qs (exec c s)"
  by (cases c) (simp_all add: session_inv_start session_inv_finish session_inv_submit)

lemma session_inv_fold: "session_inv qs s \<Longrightarrow> session_inv qs (fold exec cs s)"
  by (induction cs arbitrary: s) (simp_all add: session_inv_exec)

lemma session_inv_run: "session_inv qs (run cs (TestSession_init qs))"
  unfolding run_def by (rule session_inv_fold) (rule session_inv_init)

lemma finish_test_started:
  assumes "start_time s = Some t0"
  shows "finish_test now s =
     (Inr \<lparr>total_points = sum_list (map points_earned (results s)),
           s_max_points = sum_list (map max_points (results s)),
           percentage =
             (if sum_list (map max_points (results s)) > 0
              then rat_of_int (sum_list (map points_earned (results s))) /
                   rat_of_int (sum_list (map max_points (results s))) * 100
              else 0),
           duration = now - t0, s_results = results s\<rparr>,
      s\<lparr>end_time := Some now\<rparr>)"
  using assms by (simp add: finish_test_def Let_def)

lemma finish_test_percentage_zero:
  assumes "start_time s \<noteq> None" "sum_list (map max_points (results s)) \<le> 0"
  shows "\<exists>sm. fst (finish_test now s) = Inr sm \<and> percentage sm = 0"
proof -
  from assms(1) obtain t0 where t0: "start_time s = Some t0" by blast
  show ?thesis unfolding finish_test_started [OF t0] using assms(2) by simp
qed

lemma finish_test_not_started:
  "start_time s = None \<Longrightarrow> finish_test now s = (Inl TypeError, s\<lparr>end_time := Some now\<rparr>)"
  by (simp add: finish_test_def Let_def)

lemma submit_answers_inv:
  assumes "session_inv qs s" and "length (results s) + length as \<le> length qs"
  shows "\<exists>bs s'. submit_answers as s = (Inr bs, s') \<and> session_inv qs s' \<and>
           length bs = length as \<and>
           length (results s') = length (results s) + length as"
  using assms
proof (induction as arbitrary: s)
  case Nil
  then show ?case by simp
next
  case (Cons a as)
  let ?n = "length (results s)"
  from Cons.prems have q: "questions s = qs" and i: "current_question_index s = int ?n"
    by (simp_all add: session_inv_def)
  from Cons.prems have lt: "?n < length qs" by simp
  have g: "get_current_question s = Inr (qs ! ?n)"
    using get_current_question_in_range [of s] lt q i by simp
  obtain b s1 where s1: "submit_answer a s = (Inr b, s1)"
    using submit_answer_Inr [OF g] by blast
  have inv1: "session_inv qs s1"
    using session_inv_submit [OF Cons.prems(1), of a] s1 by simp
  have len1: "length (results s1) = Suc ?n"
    using s1 unfolding submit_answer_Inr [OF g] by auto
  from Cons.prems(2) len1 have "length (results s1) + length as \<le> length qs" by simp
  from Cons.IH [OF inv1 this] obtain bs s' where
    "submit_answers as s1 = (Inr bs, s')" "session_inv qs s'" "length bs = length as"
    "length (results s') = length (results s1) + length as" by blast
  with s1 len1 show ?case by simp
qed

lemma sum_list_bounds:
  fixes f g :: "'a \<Rightarrow> int"
  assumes "\<forall>x\<in>set xs. 0 \<le> f x \<and> f x \<le> g x"
  shows "0 \<le> sum_list (map f xs) \<and> sum_list (map f xs) \<le> sum_list (map g xs)"
  using assms by (induction xs) auto

lemma percentage_bounds:
  fixes t m :: int
  assumes "0 \<le> t" "t \<le> m" "0 < m"
  shows "0 \<le> rat_of_int t / rat_of_int m * 100 \<and> rat_of_int t / rat_of_int m * 100 \<le> 100"
proof -
  have 1: "rat_of_int t / rat_of_int m \<le> 1" using assms by (simp add: divide_le_eq_1)
  have 0: "0 \<le> rat_of_int t / rat_of_int m" using assms by simp
  from 1 have "rat_of_int t / rat_of_int m * 100 \<le> 1 * 100"
    by (rule mult_right_mono) simp
  moreover from 0 have "0 \<le> rat_of_int t / rat_of_int m * 100"
    by (rule mult_nonneg_nonneg) simp
  ultimately show ?thesis by simp
qed

section \<open>The session\<close>

text \<open>
  With one of the two questions of the demonstration answered, \<open>finish_test\<close> reports 1
  as the maximum, while the point values of the question list the session was created
  with add up to 2.
\<close>

theorem finish_test_max_points_counterexample:
  "fst (finish_test 7 (run [Start 0, Submit ''2''] (TestSession_init [demo1, demo2]))) =
     Inr \<lparr>total_points = 1, s_max_points = 1, percentage = 100, duration = 7,
          s_results = results (run [Start 0, Submit ''2''] (TestSession_init [demo1, demo2]))\<rparr> \<and>
   questions (run [Start 0, Submit ''2''] (TestSession_init [demo1, demo2])) = [demo1, demo2] \<and>
   sum_list (map points [demo1, demo2]) = 2"
  by code_simp

text \<open>
  Claim C1, as the code has it. For every session reached from its creation by any calls,
  once started, \<open>finish_test\<close> returns a summary whose total is the sum of the points
  earned over the recorded results and whose maximum is the sum of \<open>max_points\<close> over the
  recorded results, which is the sum of the point values of the questions answered so
  far; it is the sum over the whole question list when every question has been answered.
\<close>

theorem finish_test_points:
  assumes "start_time (run cs (TestSession_init qs)) \<noteq> None"
  shows "\<exists>sm. fst (finish_test now (run cs (TestSession_init qs))) = Inr sm \<and>
           total_points sm = sum_list (map points_earned (results (run cs (TestSession_init qs)))) \<and>
           s_max_points sm = sum_list (map max_points (results (run cs (TestSession_init qs)))) \<and>
           s_max_points sm =
             sum_list (map points (take (length (results (run cs (TestSession_init qs)))) qs)) \<and>
           (length (results (run cs (TestSession_init qs))) = length qs \<longrightarrow>
              s_max_points sm = sum_list (map points qs))"
proof -
  let ?s = "run cs (TestSession_init qs)"
  from assms obtain t0 where t0: "start_time ?s = Some t0" by blast
  have m: "map max_points (results ?s) = map points (take (length (results ?s)) qs)"
    using session_inv_run [of qs cs] by (simp add: session_inv_def)
  show ?thesis unfolding finish_test_started [OF t0] using m by simp
qed

theorem finish_test_points_witness:
  "start_time (run [Start 0, Submit ''2'', Submit ''no''] (TestSession_init [demo1, demo2])) \<noteq> None \<and>
   length (results (run [Start 0, Submit ''2'', Submit ''no''] (TestSession_init [demo1, demo2]))) = length [demo1, demo2] \<and>
   map_sum id s_max_points
     (fst (finish_test 7 (run [Start 0, Submit ''2'', Submit ''no''] (TestSession_init [demo1, demo2])))) = Inr 2 \<and>
   map_sum id total_points
     (fst (finish_test 7 (run [Start 0, Submit ''2'', Submit ''no''] (TestSession_init [demo1, demo2])))) = Inr 1"
proof -
  let ?s = "run [Start 0, Submit ''2'', Submit ''no''] (TestSession_init [demo1, demo2])"
  have h: "start_time ?s \<noteq> None" by code_simp
  have l: "length (results ?s) = length [demo1, demo2]" by code_simp
  have p: "map points_earned (results ?s) = [1, 0]" by code_simp
  have q: "map points [demo1, demo2] = [1, 1]" by code_simp
  from finish_test_points [OF h, of 7] l obtain sm where
    "fst (finish_test 7 ?s) = Inr sm"
    "total_points sm = sum_list (map points_earned (results ?s))"
    "s_max_points sm = sum_list (map points [demo1, demo2])" by blast
  with p q have "map_sum id s_max_points (fst (finish_test 7 ?s)) = Inr 2"
    "map_sum id total_points (fst (finish_test 7 ?s)) = Inr 1"
    by simp_all
  with h l show ?thesis by blast
qed

text \<open>
  A second \<open>finish_test\<close> on a finished session, at time 9 after the first at time 5,
  returns a summary again, with the duration counted up to 9, and stores 9 as the end
  time; it does not fail.
\<close>

theorem finish_test_twice_counterexample:
  "end_time (run [Start 0, Submit ''2'', Finish 5] (TestSession_init [demo1])) = Some 5 \<and>
   fst (finish_test 5 (run [Start 0, Submit ''2''] (TestSession_init [demo1]))) =
     Inr \<lparr>total_points = 1, s_max_points = 1, percentage = 100, duration = 5,
          s_results = results (run [Start 0, Submit ''2''] (TestSession_init [demo1]))\<rparr> \<and>
   fst (finish_test 9 (run [Start 0, Submit ''2'', Finish 5] (TestSession_init [demo1]))) =
     Inr \<lparr>total_points = 1, s_max_points = 1, percentage = 100, duration = 9,
          s_results = results (run [Start 0, Submit ''2''] (TestSession_init [demo1]))\<rparr> \<and>
   fst (finish_test 9 (run [Start 0, Submit ''2'', Finish 5] (TestSession_init [demo1]))) \<noteq>
     Inl AlreadyFinished \<and>
   end_time (snd (finish_test 9 (run [Start 0, Submit ''2'', Finish 5] (TestSession_init [demo1])))) =
     Some 9"
  by code_simp

text \<open>
  Claim C2, as the code has it. On a started session \<open>finish_test\<close> can be called again:
  the second call does not fail, it replaces the end time by the time of that call and
  returns the summary of the first call with the duration counted up to the new end time.
\<close>

theorem finish_test_repeatable:
  assumes "start_time s = Some t0"
  shows "\<exists>sm1 sm2.
           finish_test t1 s = (Inr sm1, s\<lparr>end_time := Some t1\<rparr>) \<and>
           finish_test t2 (s\<lparr>end_time := Some t1\<rparr>) = (Inr sm2, s\<lparr>end_time := Some t2\<rparr>) \<and>
           duration sm1 = t1 - t0 \<and>
           sm2 = sm1\<lparr>duration := t2 - t0\<rparr>"
proof -
  have 1: "start_time (s\<lparr>end_time := Some t1\<rparr>) = Some t0" using assms by simp
  show ?thesis
    unfolding finish_test_started [OF assms] finish_test_started [OF 1] by simp
qed

theorem finish_test_repeatable_witness:
  "start_time (run [Start 2, Submit ''2''] (TestSession_init [demo1])) = Some 2 \<and>
   end_time (snd (finish_test 9 (snd (finish_test 5 (run [Start 2, Submit ''2''] (TestSession_init [demo1])))))) = Some 9 \<and>
   map_sum id duration (fst (finish_test 5 (run [Start 2, Submit ''2''] (TestSession_init [demo1])))) = Inr 3 \<and>
   map_sum id duration
     (fst (finish_test 9 (snd (finish_test 5 (run [Start 2, Submit ''2''] (TestSession_init [demo1])))))) = Inr 7"
proof -
  let ?s = "run [Start 2, Submit ''2''] (TestSession_init [demo1])"
  have h: "start_time ?s = Some 2" by code_simp
  from finish_test_repeatable [OF h, of 5 9] obtain sm1 sm2 where
    f: "finish_test 5 ?s = (Inr sm1, ?s\<lparr>end_time := Some 5\<rparr>)"
       "finish_test 9 (?s\<lparr>end_time := Some 5\<rparr>) = (Inr sm2, ?s\<lparr>end_time := Some 9\<rparr>)"
       "duration sm1 = 5 - 2" "sm2 = sm1\<lparr>duration := 9 - 2\<rparr>" by blast
  then have "end_time (snd (finish_test 9 (snd (finish_test 5 ?s)))) = Some 9"
    "map_sum id duration (fst (finish_test 5 ?s)) = Inr 3"
    "map_sum id duration (fst (finish_test 9 (snd (finish_test 5 ?s)))) = Inr 7"
    by simp_all
  with h show ?thesis by blast
qed

text \<open>
  After both questions of the demonstration have been answered the index equals the number
  of questions, and one more \<open>submit_answer\<close> ends with \<open>IndexError\<close>, which is not the
  error \<open>OutOfSequence\<close>.
\<close>

theorem submit_answer_past_end_counterexample:
  "current_question_index (run [Submit ''2'', Submit ''True''] (TestSession_init [demo1, demo2])) = 2 \<and>
   length (questions (run [Submit ''2'', Submit ''True''] (TestSession_init [demo1, demo2]))) = 2 \<and>
   fst (submit_answer ''1'' (run [Submit ''2'', Submit ''True''] (TestSession_init [demo1, demo2])))
     = Inl IndexError \<and>
   fst (submit_answer ''1'' (run [Submit ''2'', Submit ''True''] (TestSession_init [demo1, demo2])))
     \<noteq> Inl OutOfSequence"
  by code_simp

text \<open>
  Claim C3, as the code has it. When the current index is not below the number of
  questions, \<open>submit_answer\<close> fails with the \<open>IndexError\<close> of the list access, before
  anything is scored, and the session (result list and index included) is unchanged.
\<close>

theorem submit_answer_past_end:
  assumes "int (length (questions s)) \<le> current_question_index s"
  shows "submit_answer a s = (Inl IndexError, s)"
  using assms by (simp add: get_current_question_past_end submit_answer_Inl)

theorem submit_answer_past_end_witness:
  "int (length (questions (run [Start 0, Submit ''2'', Submit ''True''] (TestSession_init [demo1, demo2]))))
     \<le> current_question_index (run [Start 0, Submit ''2'', Submit ''True''] (TestSession_init [demo1, demo2])) \<and>
   length (results (run [Start 0, Submit ''2'', Submit ''True''] (TestSession_init [demo1, demo2]))) = 2 \<and>
   current_question_index (run [Start 0, Submit ''2'', Submit ''True''] (TestSession_init [demo1, demo2])) = 2 \<and>
   submit_answer ''1'' (run [Start 0, Submit ''2'', Submit ''True''] (TestSession_init [demo1, demo2])) =
     (Inl IndexError, run [Start 0, Submit ''2'', Submit ''True''] (TestSession_init [demo1, demo2])) \<and>
   length (results (snd (submit_answer ''1''
     (run [Start 0, Submit ''2'', Submit ''True''] (TestSession_init [demo1, demo2]))))) = 2 \<and>
   current_question_index (snd (submit_answer ''1''
     (run [Start 0, Submit ''2'', Submit ''True''] (TestSession_init [demo1, demo2])))) = 2"
proof -
  let ?s = "run [Start 0, Submit ''2'', Submit ''True''] (TestSession_init [demo1, demo2])"
  have h: "int (length (questions ?s)) \<le> current_question_index ?s" by code_simp
  have l: "length (results ?s) = 2" by code_simp
  have i: "current_question_index ?s = 2" by code_simp
  have e: "submit_answer ''1'' ?s = (Inl IndexError, ?s)"
    using submit_answer_past_end [OF h, of "''1''"] .
  then have k: "snd (submit_answer ''1'' ?s) = ?s" by simp
  have l': "length (results (snd (submit_answer ''1'' ?s))) = 2" unfolding k by (rule l)
  have i': "current_question_index (snd (submit_answer ''1'' ?s)) = 2" unfolding k by (rule i)
  from h l i e l' i' show ?thesis by blast
qed

text \<open>
  Claim C5. From a new session over \<open>qs\<close>, submitting \<open>N\<close> answers with \<open>N\<close> at most the
  number of questions raises nothing and leaves \<open>N\<close> results and the index \<open>N\<close>. A call
  of \<open>submit_answer\<close> with the index inside the list returns; and every call that returns
  has appended exactly one result, has advanced the index by one and returns whether the
  new index is below the number of questions.
\<close>

theorem submit_answer_progress:
  "(length as \<le> length qs \<longrightarrow>
      (\<exists>bs s. submit_answers as (TestSession_init qs) = (Inr bs, s) \<and>
         length (results s) = length as \<and>
         current_question_index s = int (length as))) \<and>
   (0 \<le> current_question_index s0 \<and> current_question_index s0 < int (length (questions s0)) \<longrightarrow>
      (\<exists>b s1. submit_answer a s0 = (Inr b, s1))) \<and>
   (submit_answer a s0 = (Inr b, s1) \<longrightarrow>
      (\<exists>r. results s1 = results s0 @ [r]) \<and>
      current_question_index s1 = current_question_index s0 + 1 \<and>
      (b \<longleftrightarrow> current_question_index s1 < int (length (questions s1))))"
proof (intro conjI impI)
  assume "length as \<le> length qs"
  with submit_answers_inv [OF session_inv_init, of qs as]
  obtain bs s where "submit_answers as (TestSession_init qs) = (Inr bs, s)"
    "session_inv qs s" "length (results s) = length as"
    by (auto simp: TestSession_init_def)
  then show "\<exists>bs s. submit_answers as (TestSession_init qs) = (Inr bs, s) \<and>
         length (results s) = length as \<and> current_question_index s = int (length as)"
    by (auto simp: session_inv_def)
next
  assume "0 \<le> current_question_index s0 \<and> current_question_index s0 < int (length (questions s0))"
  then have "get_current_question s0 = Inr (questions s0 ! nat (current_question_index s0))"
    by (simp add: get_current_question_in_range)
  from submit_answer_Inr [OF this] show "\<exists>b s1. submit_answer a s0 = (Inr b, s1)" by blast
next
  assume a: "submit_answer a s0 = (Inr b, s1)"
  then obtain q where g: "get_current_question s0 = Inr q"
    by (cases "get_current_question s0") (auto simp: submit_answer_Inl)
  from a show "\<exists>r. results s1 = results s0 @ [r]"
    unfolding submit_answer_Inr [OF g] by auto
  from a show "current_question_index s1 = current_question_index s0 + 1"
    unfolding submit_answer_Inr [OF g] by auto
  from a show "b \<longleftrightarrow> current_question_index s1 < int (length (questions s1))"
    unfolding submit_answer_Inr [OF g] by auto
qed

theorem submit_answer_progress_witness:
  "length [''2'', ''True''] \<le> length [demo1, demo2] \<and>
   length (results (snd (submit_answers [''2'', ''True''] (TestSession_init [demo1, demo2])))) = 2 \<and>
   current_question_index (snd (submit_answers [''2'', ''True''] (TestSession_init [demo1, demo2]))) = 2 \<and>
   0 \<le> current_question_index (TestSession_init [demo1, demo2]) \<and>
   current_question_index (TestSession_init [demo1, demo2]) < int (length (questions (TestSession_init [demo1, demo2]))) \<and>
   submit_answer ''2'' (TestSession_init [demo1, demo2]) =
     (Inr True, snd (submit_answer ''2'' (TestSession_init [demo1, demo2]))) \<and>
   length (results (snd (submit_answer ''2'' (TestSession_init [demo1, demo2])))) = 1 \<and>
   current_question_index (snd (submit_answer ''2'' (TestSession_init [demo1, demo2]))) = 1"
proof -
  let ?s0 = "TestSession_init [demo1, demo2]"
  let ?s1 = "snd (submit_answer ''2'' ?s0)"
  note t = submit_answer_progress [of "[''2'', ''True'']" "[demo1, demo2]" ?s0 "''2''" True ?s1]
  have h1: "length [''2'', ''True''] \<le> length [demo1, demo2]" by simp
  have h2: "0 \<le> current_question_index ?s0 \<and>
            current_question_index ?s0 < int (length (questions ?s0))"
    by (simp add: TestSession_init_def)
  have h3: "submit_answer ''2'' ?s0 = (Inr True, ?s1)"
    by code_simp
  from t h1 obtain bs s where r: "submit_answers [''2'', ''True''] ?s0 = (Inr bs, s)"
    "length (results s) = length [''2'', ''True'']"
    "current_question_index s = int (length [''2'', ''True''])" by blast
  from t h3 obtain r1 where r1: "results ?s1 = results ?s0 @ [r1]"
    "current_question_index ?s1 = current_question_index ?s0 + 1" by blast
  have a: "length (results (snd (submit_answers [''2'', ''True''] ?s0))) = 2"
    "current_question_index (snd (submit_answers [''2'', ''True''] ?s0)) = 2"
    using r by simp_all
  have b: "length (results ?s1) = 1" "current_question_index ?s1 = 1"
    using r1 by (simp_all add: TestSession_init_def)
  from h1 h2 h3 a b show ?thesis by blast
qed

text \<open>
  Claim C10. In a session whose questions all have point values of at least 0, reached
  from its creation by any calls, result number \<open>i\<close> has the point value of question
  number \<open>i\<close> as its maximum and has earned either 0 or that value; and once the session
  is started \<open>finish_test\<close> returns a summary with
  \<open>0 \<le> total_points \<le> max_points\<close> and \<open>0 \<le> percentage \<le> 100\<close>.
\<close>

theorem session_score_bounds:
  assumes "\<forall>q\<in>set qs. 0 \<le> points q"
  shows "(\<forall>i<length (results (run cs (TestSession_init qs))).
            max_points (results (run cs (TestSession_init qs)) ! i) = points (qs ! i) \<and>
            (points_earned (results (run cs (TestSession_init qs)) ! i) = 0 \<or>
             points_earned (results (run cs (TestSession_init qs)) ! i) = points (qs ! i))) \<and>
         (start_time (run cs (TestSession_init qs)) \<noteq> None \<longrightarrow>
            (\<exists>sm. fst (finish_test now (run cs (TestSession_init qs))) = Inr sm \<and>
               0 \<le> total_points sm \<and> total_points sm \<le> s_max_points sm \<and>
               0 \<le> percentage sm \<and> percentage sm \<le> 100))"
proof -
  let ?s = "run cs (TestSession_init qs)"
  let ?n = "length (results ?s)"
  have inv: "session_inv qs ?s" by (rule session_inv_run)
  then have n: "?n \<le> length qs"
    and m: "map max_points (results ?s) = map points (take ?n qs)"
    and p: "\<forall>r\<in>set (results ?s). points_earned r = 0 \<or> points_earned r = max_points r"
    by (simp_all add: session_inv_def)
  have mi: "max_points (results ?s ! i) = points (qs ! i)" if "i < ?n" for i
  proof -
    have "map max_points (results ?s) ! i = map points (take ?n qs) ! i" by (simp only: m)
    with that n show ?thesis by simp
  qed
  have part1: "\<forall>i<?n. max_points (results ?s ! i) = points (qs ! i) \<and>
      (points_earned (results ?s ! i) = 0 \<or> points_earned (results ?s ! i) = points (qs ! i))"
    using mi p by (metis nth_mem)
  have nonneg: "\<forall>r\<in>set (results ?s). 0 \<le> max_points r"
  proof
    fix r assume "r \<in> set (results ?s)"
    then obtain i where i: "i < ?n" "results ?s ! i = r" by (auto simp: in_set_conv_nth)
    with n have "qs ! i \<in> set qs" by simp
    with assms mi [OF i(1)] i(2) show "0 \<le> max_points r" by auto
  qed
  have b: "\<forall>r\<in>set (results ?s). 0 \<le> points_earned r \<and> points_earned r \<le> max_points r"
    using p nonneg by auto
  note sb = sum_list_bounds [OF b]
  have part2: "\<exists>sm. fst (finish_test now ?s) = Inr sm \<and>
               0 \<le> total_points sm \<and> total_points sm \<le> s_max_points sm \<and>
               0 \<le> percentage sm \<and> percentage sm \<le> 100"
    if "start_time ?s \<noteq> None"
  proof -
    from that obtain t0 where t0: "start_time ?s = Some t0" by blast
    show ?thesis
    proof (cases "0 < sum_list (map max_points (results ?s))")
      case True
      with sb percentage_bounds show ?thesis
        unfolding finish_test_started [OF t0] by simp
    next
      case False
      with sb show ?thesis unfolding finish_test_started [OF t0] by simp
    qed
  qed
  from part1 part2 show ?thesis by blast
qed

theorem session_score_bounds_witness:
  "0 \<le> points demo1 \<and> 0 \<le> points demo2 \<and>
   start_time (run [Start 0, Submit ''2'', Submit ''no''] (TestSession_init [demo1, demo2])) \<noteq> None \<and>
   0 < length (results (run [Start 0, Submit ''2'', Submit ''no''] (TestSession_init [demo1, demo2]))) \<and>
   max_points (results (run [Start 0, Submit ''2'', Submit ''no''] (TestSession_init [demo1, demo2])) ! 0) =
     points demo1 \<and>
   (case fst (finish_test 4 (run [Start 0, Submit ''2'', Submit ''no''] (TestSession_init [demo1, demo2]))) of
      Inl e \<Rightarrow> False
    | Inr sm \<Rightarrow> 0 \<le> total_points sm \<and> total_points sm \<le> s_max_points sm \<and>
        0 \<le> percentage sm \<and> percentage sm \<le> 100)"
proof -
  let ?s = "run [Start 0, Submit ''2'', Submit ''no''] (TestSession_init [demo1, demo2])"
  have p: "0 \<le> points demo1" "0 \<le> points demo2" by (simp_all add: demo1_def demo2_def)
  then have h: "\<forall>q\<in>set [demo1, demo2]. 0 \<le> points q" by simp
  have st: "start_time ?s \<noteq> None" by code_simp
  have l: "0 < length (results ?s)" by code_simp
  note t = session_score_bounds [OF h, of "[Start 0, Submit ''2'', Submit ''no'']" 4]
  from t l have "max_points (results ?s ! 0) = points ([demo1, demo2] ! 0)" by blast
  then have 1: "max_points (results ?s ! 0) = points demo1" by simp
  from t st obtain sm where "fst (finish_test 4 ?s) = Inr sm"
    "0 \<le> total_points sm \<and> total_points sm \<le> s_max_points sm \<and>
     0 \<le> percentage sm \<and> percentage sm \<le> 100" by blast
  then have 2: "case fst (finish_test 4 ?s) of
      Inl e \<Rightarrow> False
    | Inr sm \<Rightarrow> 0 \<le> total_points sm \<and> total_points sm \<le> s_max_points sm \<and>
        0 \<le> percentage sm \<and> percentage sm \<le> 100" by simp
  from p st l 1 2 show ?thesis by blast
qed

end
